theory Spec2Isabelle
  imports Complex_Main
begin

chapter \<open>The model\<close>

section \<open>The point store: \<open>collections.deque(maxlen=...)\<close> and the trimmed list\<close>

text \<open>
  \<open>FullLidarMappingGUI.py\<close> keeps its points in \<open>deque(maxlen=150000)\<close> and only ever
  calls \<open>clear()\<close> and \<open>extend(batch)\<close> on it. A bounded deque appends on the right and,
  when that makes it longer than \<open>maxlen\<close>, drops one item on the left; \<open>extend\<close> appends
  the items of the batch one by one.
\<close>

record 'a deque =
  maxlen :: nat
  items :: "'a list"

definition new_deque :: "nat \<Rightarrow> 'a deque" where
  "new_deque n = \<lparr>maxlen = n, items = []\<rparr>"

definition deque_append :: "'a deque \<Rightarrow> 'a \<Rightarrow> 'a deque" where
  "deque_append d x =
     (let ys = items d @ [x]
      in d\<lparr>items := (if maxlen d < length ys then tl ys else ys)\<rparr>)"

definition deque_extend :: "'a deque \<Rightarrow> 'a list \<Rightarrow> 'a deque" where
  "deque_extend d xs = foldl deque_append d xs"

definition deque_clear :: "'a deque \<Rightarrow> 'a deque" where
  "deque_clear d = d\<lparr>items := []\<rparr>"

text \<open>
  \<open>FixedLidarViewer.scan_worker\<close> (\<open>LidarViewer.py\<close>, lines 119-123) keeps a plain list:
  a non-empty batch is appended whole, and the list is then cut to its last 2000 items
  (\<open>self.all_points[-2000:]\<close>) when it has grown beyond 2000.
\<close>

definition viewer_capacity :: nat where
  "viewer_capacity = 2000"

definition viewer_store :: "'a list \<Rightarrow> 'a list \<Rightarrow> 'a list" where
  "viewer_store all_points new_points =
     (if new_points \<noteq> [] then
        (let grown = all_points @ new_points
         in if viewer_capacity < length grown
            then drop (length grown - viewer_capacity) grown
            else grown)
      else all_points)"

text \<open>The specification's words: the \<open>k\<close> most recently inserted points, oldest first.\<close>

definition most_recent :: "nat \<Rightarrow> 'a list \<Rightarrow> 'a list" where
  "most_recent k xs = drop (length xs - k) xs"

section \<open>Derived metrics: \<open>RoomMapperLidar.measure_room\<close>\<close>

text \<open>
  Python exceptions are values of \<open>pyerr\<close>; a function that can raise returns
  \<open>pyerr + 'a\<close>, with \<open>Inl\<close> for the exception. Python floats are modelled by the reals:
  the claims about the metrics are about which quantities are subtracted, multiplied and
  compared, not about rounding.
\<close>

datatype pyerr =
  JSONDecodeError | KeyError | TypeError | StopIteration | IndexError | ValueError
  | UnboundLocalError

text \<open>
  The builtins \<open>max\<close> and \<open>min\<close> on a list: \<open>ValueError\<close> on the empty list, otherwise
  one pass that replaces the running item when a strictly greater (smaller) one is met.
\<close>

fun py_max :: "real list \<Rightarrow> pyerr + real" where
  "py_max [] = Inl ValueError"
| "py_max (x # xs) = Inr (foldl (\<lambda>m v. if m < v then v else m) x xs)"

fun py_min :: "real list \<Rightarrow> pyerr + real" where
  "py_min [] = Inl ValueError"
| "py_min (x # xs) = Inr (foldl (\<lambda>m v. if v < m then v else m) x xs)"

record room_data =
  width :: real
  height :: real
  area :: real
  perimeter :: real
  center :: "real \<times> real"
  bounds :: "real \<times> real \<times> real \<times> real"
  point_count :: nat

text \<open>
  \<open>measure_room\<close> (\<open>RoomMapperLidar.py\<close>, lines 138-162); the points of this variant are
  pairs \<open>(x, y)\<close>. The guard is \<open>len(self.all_points) > 100\<close>.
\<close>

definition measure_room :: "(real \<times> real) list \<Rightarrow> pyerr + room_data option" where
  "measure_room all_points =
     (if 100 < length all_points then
        (let xs = map fst all_points; ys = map snd all_points
         in case (py_max xs, py_min xs, py_max ys, py_min ys) of
              (Inr max_x, Inr min_x, Inr max_y, Inr min_y) \<Rightarrow>
                (let width = max_x - min_x;
                     height = max_y - min_y;
                     room_area = width * height / 1000000;
                     perimeter = 2 * (width + height);
                     center_x = (max_x + min_x) / 2;
                     center_y = (max_y + min_y) / 2
                 in Inr (Some \<lparr>width = width, height = height, area = room_area,
                                perimeter = perimeter, center = (center_x, center_y),
                                bounds = (min_x, min_y, max_x, max_y),
                                point_count = length all_points\<rparr>))
            | _ \<Rightarrow> Inl ValueError)
      else Inr None)"

section \<open>The mapping GUI: \<open>FullLidarMappingGUI.py\<close>\<close>

subsection \<open>Python values and measurements\<close>

text \<open>
  The values a point store or an interchange file can hold: what \<open>json.load\<close> returns,
  which is also what \<open>json.dump\<close> accepts. A point of this variant is the list
  \<open>[x, y, quality, distance]\<close>. A \<open>PDict\<close> lists the entries of a dictionary in
  insertion order, each key once.
\<close>

datatype pyval =
  PNone | PBool bool | PInt int | PFloat real | PStr string
  | PList "pyval list" | PDict "(string \<times> pyval) list"

text \<open>A measurement is the tuple \<open>(quality, angle, distance)\<close> the driver yields.\<close>

type_synonym measurement = "int \<times> real \<times> real"

definition radians :: "real \<Rightarrow> real" where
  "radians a = a * pi / 180"

text \<open>
  The body of the inner loop of \<open>scan_worker\<close> (lines 553-559): the filter
  \<open>0 < distance <= self.filter_distance and quality > 0\<close> and the conversion to
  Cartesian coordinates. \<open>None\<close> is a rejected measurement.
\<close>

definition convert :: "int \<Rightarrow> measurement \<Rightarrow> pyval option" where
  "convert filter_distance m =
     (case m of (quality, angle, distance) \<Rightarrow>
        if 0 < distance \<and> distance \<le> of_int filter_distance \<and> 0 < quality then
          (let angle_rad = radians angle;
               x = distance * cos angle_rad;
               y = distance * sin angle_rad
           in Some (PList [PFloat x, PFloat y, PInt quality, PFloat distance]))
        else None)"

definition process_scan :: "int \<Rightarrow> measurement list \<Rightarrow> pyval list" where
  "process_scan filter_distance scan = List.map_filter (convert filter_distance) scan"

subsection \<open>The queue and the state of the GUI\<close>

text \<open>
  A queue item is a list of points or the tuple \<open>("error", text)\<close>. The worker puts the
  points of a scan only when there are some (lines 562-563).
\<close>

datatype message = Data "pyval list" | Fault string

fun scan_worker :: "int \<Rightarrow> measurement list list \<Rightarrow> message list" where
  "scan_worker filter_distance [] = []"
| "scan_worker filter_distance (scan # scans) =
     (let points = process_scan filter_distance scan
      in if points \<noteq> [] then Data points # scan_worker filter_distance scans
         else scan_worker filter_distance scans)"

text \<open>
  The fields of \<open>ModernLidarMappingGUI\<close> that the pipeline reads and writes. Three fields
  record effects on the outside: \<open>viz_calls\<close> counts the calls of
  \<open>update_visualization\<close>, \<open>errors_shown\<close> lists the \<open>messagebox.showerror\<close> texts, and
  \<open>tick_scheduled\<close> says whether the last \<open>process_queue\<close> re-armed itself with
  \<open>root.after(50, self.process_queue)\<close>.
\<close>

record gui =
  all_points :: "pyval deque"
  scan_count :: int
  is_scanning :: bool
  connection_status :: bool
  filter_distance :: int
  data_queue :: "message list"
  viz_calls :: nat
  errors_shown :: "string list"
  tick_scheduled :: bool

definition init_gui :: gui where
  "init_gui = \<lparr>all_points = new_deque 150000, scan_count = 0, is_scanning = False,
               connection_status = False, filter_distance = 8000, data_queue = [],
               viz_calls = 0, errors_shown = [], tick_scheduled = False\<rparr>"

text \<open>
  \<open>update_visualization\<close> (lines 591-661) filters and draws with numpy and matplotlib,
  the presentation layer; it assigns none of the fields above. The model records the call.
  The scheduler is modelled on a store of the worker's four-field points, on which this
  code does not raise; \<open>load_data\<close>, which can put any rows into the store, also models
  the exception the call can raise (\<open>visualization_error\<close> below).
\<close>

definition update_visualization :: "gui \<Rightarrow> gui" where
  "update_visualization st = st\<lparr>viz_calls := Suc (viz_calls st)\<rparr>"

definition showerror :: "string \<Rightarrow> gui \<Rightarrow> gui" where
  "showerror msg st = st\<lparr>errors_shown := errors_shown st @ [msg]\<rparr>"

text \<open>\<open>stop_scan\<close> (lines 527-544): clear the flag, stop the driver, one last redraw.\<close>

definition stop_scan :: "gui \<Rightarrow> gui" where
  "stop_scan st = update_visualization (st\<lparr>is_scanning := False\<rparr>)"

text \<open>
  \<open>process_queue\<close> (lines 569-589). \<open>merge_batch\<close> is the \<open>else\<close> branch of the loop
  body; \<open>drain\<close> is the \<open>while True\<close> loop over the items that \<open>get_nowait\<close> returns,
  first in first out, until the queue is empty. The error branch calls \<open>stop_scan\<close>
  and the loop goes on with the next item.
\<close>

definition merge_batch :: "gui \<Rightarrow> pyval list \<Rightarrow> gui" where
  "merge_batch st data =
     (let st1 = st\<lparr>all_points := deque_extend (all_points st) data,
                   scan_count := scan_count st + 1\<rparr>
      in if scan_count st1 mod 3 = 0 then update_visualization st1 else st1)"

fun drain :: "gui \<Rightarrow> message list \<Rightarrow> gui" where
  "drain st [] = st"
| "drain st (Fault e # q) = drain (stop_scan (showerror (''Scanning error: '' @ e) st)) q"
| "drain st (Data data # q) = drain (merge_batch st data) q"

definition process_queue :: "gui \<Rightarrow> gui" where
  "process_queue st =
     (let st1 = drain (st\<lparr>data_queue := []\<rparr>) (data_queue st)
      in st1\<lparr>tick_scheduled := is_scanning st1\<rparr>)"



text \<open>\<open>start_scan\<close> (lines 506-525).\<close>

definition start_scan :: "gui \<Rightarrow> gui" where
  "start_scan st =
     (if \<not> connection_status st then st
      else process_queue (st\<lparr>is_scanning := True, scan_count := 0,
                               all_points := deque_clear (all_points st)\<rparr>))"




text \<open>Two concrete points and two concrete states for the evaluations below.\<close>

definition point_a :: pyval where
  "point_a = PList [PFloat 1000, PFloat 0, PInt 10, PFloat 1000]"

definition point_b :: pyval where
  "point_b = PList [PFloat 0, PFloat 2000, PInt 12, PFloat 2000]"

definition scanning_gui :: gui where
  "scanning_gui = init_gui\<lparr>is_scanning := True, connection_status := True\<rparr>"

section \<open>The interchange codec: \<open>export_data\<close> and \<open>load_data\<close>\<close>

text \<open>
  A file on disk is modelled by what the reading library makes of it: a \<open>.json\<close> file by
  the value \<open>json.load\<close> returns (\<open>None\<close> when the text is not JSON), a \<open>.csv\<close> file by
  the rows \<open>csv.reader\<close> yields, and any other name by nothing, since neither branch reads
  it. \<open>json.dump\<close> followed by \<open>json.load\<close> returns the value that was dumped (lists,
  string-keyed dictionaries, ints, finite floats and strings), so the exported \<open>.json\<close>
  file is the dictionary \<open>data_to_save\<close>.
\<close>

datatype interchange_file =
  JsonFile "pyval option" | CsvFile "string list list" | OtherFile

datatype export_target = JsonName | CsvName | OtherName

text \<open>
  The builtins the codec relies on. \<open>py_iter\<close> is iteration (\<open>TypeError\<close> for a value
  that is not iterable; a dictionary yields its keys, a string its characters);
  \<open>getitem_points\<close> is the subscript \<open>data['points']\<close>.
\<close>

fun py_iter :: "pyval \<Rightarrow> pyerr + pyval list" where
  "py_iter (PList vs) = Inr vs"
| "py_iter (PDict kvs) = Inr (map (\<lambda>kv. PStr (fst kv)) kvs)"
| "py_iter (PStr s) = Inr (map (\<lambda>c. PStr [c]) s)"
| "py_iter PNone = Inl TypeError"
| "py_iter (PBool b) = Inl TypeError"
| "py_iter (PInt i) = Inl TypeError"
| "py_iter (PFloat r) = Inl TypeError"

fun getitem_points :: "pyval \<Rightarrow> pyerr + pyval" where
  "getitem_points (PDict kvs) =
     (case map_of kvs ''points'' of None \<Rightarrow> Inl KeyError | Some v \<Rightarrow> Inr v)"
| "getitem_points (PList vs) = Inl TypeError"
| "getitem_points (PStr s) = Inl TypeError"
| "getitem_points PNone = Inl TypeError"
| "getitem_points (PBool b) = Inl TypeError"
| "getitem_points (PInt i) = Inl TypeError"
| "getitem_points (PFloat r) = Inl TypeError"

text \<open>
  \<open>export_data\<close> (lines 687-730) with the file name already chosen. An empty store is not
  exported: the function returns after a warning. \<open>now\<close> is
  \<open>datetime.now().isoformat()\<close>; \<open>to_str\<close> is the text \<open>csv.writer\<close> writes for a field.
  A \<open>.csv\<close> export writes the header and then the rows, and stops at a point that is not
  iterable. A name that ends in neither suffix writes no file.
\<close>

fun csv_rows :: "(pyval \<Rightarrow> string) \<Rightarrow> pyval list \<Rightarrow> string list list" where
  "csv_rows to_str [] = []"
| "csv_rows to_str (p # ps) =
     (case py_iter p of
        Inl e \<Rightarrow> []
      | Inr cells \<Rightarrow> map to_str cells # csv_rows to_str ps)"

definition export_data ::
  "string \<Rightarrow> (pyval \<Rightarrow> string) \<Rightarrow> export_target \<Rightarrow> gui \<Rightarrow> interchange_file option" where
  "export_data now to_str target st =
     (if items (all_points st) = [] then None
      else
        (let points_list = items (all_points st)
         in case target of
              JsonName \<Rightarrow>
                Some (JsonFile (Some (PDict
                  [(''points'', PList points_list),
                   (''scan_count'', PInt (scan_count st)),
                   (''timestamp'', PStr now),
                   (''total_points'', PInt (int (length (items (all_points st))))),
                   (''filter_distance'', PInt (filter_distance st))])))
            | CsvName \<Rightarrow>
                Some (CsvFile ([''X'', ''Y'', ''Quality'', ''Distance'']
                               # csv_rows to_str points_list))
            | OtherName \<Rightarrow> None))"

text \<open>
  \<open>load_data\<close> (lines 732-777) with the file already chosen. \<open>read_points\<close> is the
  \<open>if\<close>/\<open>elif\<close> that binds \<open>points\<close> (lines 746-757): \<open>Inr None\<close> says that neither
  branch ran and \<open>points\<close> is unbound. \<open>to_float\<close> is the builtin \<open>float\<close> on a string,
  \<open>None\<close> for \<open>ValueError\<close>. A row is converted field by field, so a short row raises
  \<open>IndexError\<close> at the first missing field.
\<close>

fun csv_fields :: "(string \<Rightarrow> real option) \<Rightarrow> nat \<Rightarrow> string list \<Rightarrow> pyerr + pyval list" where
  "csv_fields to_float 0 row = Inr []"
| "csv_fields to_float (Suc n) [] = Inl IndexError"
| "csv_fields to_float (Suc n) (c # row) =
     (case to_float c of
        None \<Rightarrow> Inl ValueError
      | Some v \<Rightarrow>
          (case csv_fields to_float n row of
             Inl e \<Rightarrow> Inl e
           | Inr vs \<Rightarrow> Inr (PFloat v # vs)))"

fun csv_points :: "(string \<Rightarrow> real option) \<Rightarrow> string list list \<Rightarrow> pyerr + pyval list" where
  "csv_points to_float [] = Inr []"
| "csv_points to_float (row # rows) =
     (case csv_fields to_float 4 row of
        Inl e \<Rightarrow> Inl e
      | Inr vs \<Rightarrow>
          (case csv_points to_float rows of
             Inl e \<Rightarrow> Inl e
           | Inr ps \<Rightarrow> Inr (PList vs # ps)))"

fun read_points :: "(string \<Rightarrow> real option) \<Rightarrow> interchange_file \<Rightarrow> pyerr + pyval option" where
  "read_points to_float (JsonFile None) = Inl JSONDecodeError"
| "read_points to_float (JsonFile (Some data)) =
     (case getitem_points data of Inl e \<Rightarrow> Inl e | Inr points \<Rightarrow> Inr (Some points))"
| "read_points to_float (CsvFile []) = Inl StopIteration"
| "read_points to_float (CsvFile (header # rows)) =
     (case csv_points to_float rows of
        Inl e \<Rightarrow> Inl e
      | Inr ps \<Rightarrow> Inr (Some (PList ps)))"
| "read_points to_float OtherFile = Inr None"

text \<open>
  \<open>load_data\<close> calls \<open>update_visualization\<close> inside its \<open>try\<close> (line 765), so an
  exception of the drawing code is reported as a failed load. \<open>visualization_error\<close> is
  the exception lines 592-661 raise on the contents of the store, if any:
  \<^item> an empty store returns at once (line 592);
  \<^item> when every item is a list of the same number \<open>n\<close> of numbers, \<open>np.array\<close> gives
    an array with \<open>n\<close> columns, and the column read \<open>points_array[:, 3]\<close> of line 599
    raises \<open>IndexError\<close> when \<open>n < 4\<close> and nothing is raised otherwise;
  \<^item> on any other contents (items that are not lists, lists of different lengths,
    cells that are not floats or 64-bit integers) what numpy does depends on the shapes
    and on its version: the parameter \<open>irregular\<close> stands for it.
\<close>

fun is_number :: "pyval \<Rightarrow> bool" where
  "is_number (PFloat r) = True"
| "is_number (PInt i) = (- (2 ^ 63) \<le> i \<and> i < 2 ^ 63)"
| "is_number v = False"

fun row_width :: "pyval \<Rightarrow> nat option" where
  "row_width (PList cells) = (if list_all is_number cells then Some (length cells) else None)"
| "row_width v = None"

definition table_width :: "pyval list \<Rightarrow> nat option" where
  "table_width ps =
     (case ps of
        [] \<Rightarrow> None
      | p # rest \<Rightarrow>
          (case row_width p of
             None \<Rightarrow> None
           | Some n \<Rightarrow> if list_all (\<lambda>q. row_width q = Some n) rest then Some n else None))"

definition visualization_error ::
  "(pyval list \<Rightarrow> pyerr option) \<Rightarrow> pyval list \<Rightarrow> pyerr option" where
  "visualization_error irregular ps =
     (if ps = [] then None
      else case table_width ps of
             None \<Rightarrow> irregular ps
           | Some n \<Rightarrow> if n < 4 then Some IndexError else None)"

text \<open>
  The result of \<open>load_data\<close> is the exception its \<open>except\<close> clause reported, if any, and
  the state it leaves. The store is cleared (line 760) before \<open>points\<close> is evaluated and
  iterated (line 761), and it has been refilled when the redraw runs.
\<close>

definition load_failed :: "pyerr \<Rightarrow> gui \<Rightarrow> (pyerr + unit) \<times> gui" where
  "load_failed e st = (Inl e, showerror ''Failed to load data'' st)"

definition load_data ::
  "(string \<Rightarrow> real option) \<Rightarrow> (pyval list \<Rightarrow> pyerr option) \<Rightarrow> interchange_file \<Rightarrow> gui
     \<Rightarrow> (pyerr + unit) \<times> gui" where
  "load_data to_float irregular doc st =
     (case read_points to_float doc of
        Inl e \<Rightarrow> load_failed e st
      | Inr bound \<Rightarrow>
          (let st1 = st\<lparr>all_points := deque_clear (all_points st)\<rparr>
           in case bound of
                None \<Rightarrow> load_failed UnboundLocalError st1
              | Some points \<Rightarrow>
                  (case py_iter points of
                     Inl e \<Rightarrow> load_failed e st1
                   | Inr ps \<Rightarrow>
                       (let st2 = st1\<lparr>all_points := deque_extend (all_points st1) ps\<rparr>;
                            st3 = st2\<lparr>scan_count := int (length ps) div 100\<rparr>;
                            st4 = update_visualization st3
                        in case visualization_error irregular (items (all_points st4)) of
                             Some e \<Rightarrow> load_failed e st4
                           | None \<Rightarrow> (Inr (), st4)))))"

text \<open>
  The specification's words for a file that is malformed where it is read: JSON text
  that does not parse, a top-level value that is not a dictionary with a \<open>points\<close> entry,
  a \<open>.csv\<close> file without a header row, or one with a data row that has fewer than four
  fields or a field among the first four that is not a number.
\<close>

fun bad_row :: "(string \<Rightarrow> real option) \<Rightarrow> string list \<Rightarrow> bool" where
  "bad_row to_float row =
     (length row < 4 \<or> list_ex (\<lambda>c. to_float c = None) (take 4 row))"

fun malformed_at_read :: "(string \<Rightarrow> real option) \<Rightarrow> interchange_file \<Rightarrow> bool" where
  "malformed_at_read to_float (JsonFile None) = True"
| "malformed_at_read to_float (JsonFile (Some (PDict kvs))) = (''points'' \<notin> fst ` set kvs)"
| "malformed_at_read to_float (JsonFile (Some v)) = True"
| "malformed_at_read to_float (CsvFile []) = True"
| "malformed_at_read to_float (CsvFile (header # rows)) = list_ex (bad_row to_float) rows"
| "malformed_at_read to_float OtherFile = False"

text \<open>A \<open>float\<close> for the evaluations below: it reads the two strings it is given.\<close>

definition demo_float :: "string \<Rightarrow> real option" where
  "demo_float s = (if s = ''1.5'' then Some (3 / 2) else if s = ''2'' then Some 2 else None)"

text \<open>A point as the scanner makes it: a list of four numbers.\<close>

definition is_point :: "pyval \<Rightarrow> bool" where
  "is_point p = (row_width p = Some 4)"

text \<open>A stand-in for numpy on irregular contents, for the evaluations below.\<close>

definition demo_irregular :: "pyval list \<Rightarrow> pyerr option" where
  "demo_irregular ps = Some ValueError"

definition loaded_gui :: gui where
  "loaded_gui = scanning_gui\<lparr>all_points := deque_extend (new_deque 150000) [point_a, point_b],
                             scan_count := 2\<rparr>"

section \<open>The threshold-guarded worker: \<open>LidarWorker.run\<close> in \<open>LidarViewer.py\<close>\<close>

text \<open>
  What one evaluation of \<open>next(self.lidar.iter_scans(max_buf_meas=500))\<close> gives: a scan,
  \<open>StopIteration\<close>, or any other exception.
\<close>

datatype frame = Scan "measurement list" | StopIter | ScanError string

text \<open>The points of a scan (lines 380-386): this variant keeps pairs \<open>(x, y)\<close>.\<close>

definition worker_points :: "measurement list \<Rightarrow> (real \<times> real) list" where
  "worker_points scan =
     List.map_filter
       (\<lambda>m. case m of (quality, angle, distance) \<Rightarrow>
          if 0 < distance \<and> 0 < quality then
            (let angle_rad = radians angle
             in Some (distance * cos angle_rad, distance * sin angle_rad))
          else None)
       scan"

text \<open>
  The worker: its flag, whether \<open>self.lidar\<close> is set, the local counter of \<open>run\<close>, and
  what it has emitted on its three signals.
\<close>

record worker =
  worker_is_scanning :: bool
  lidar :: bool
  consecutive_errors :: int
  data_ready :: "(real \<times> real) list list"
  error_signal :: "string list"
  info_signal :: nat

definition init_worker :: worker where
  "init_worker = \<lparr>worker_is_scanning = False, lidar = False, consecutive_errors = 0,
                  data_ready = [], error_signal = [], info_signal = 0\<rparr>"

definition max_consecutive_errors :: int where
  "max_consecutive_errors = 3"

text \<open>
  \<open>connect_lidar\<close> (lines 338-351): the constructor or the queries may raise; either way
  the failure is emitted on \<open>error_signal\<close> and the result is \<open>False\<close>.
\<close>

datatype connect_result = Connected | PortFailed | InfoFailed

fun connect_lidar :: "connect_result \<Rightarrow> worker \<Rightarrow> worker \<times> bool" where
  "connect_lidar Connected w = (w\<lparr>lidar := True, info_signal := Suc (info_signal w)\<rparr>, True)"
| "connect_lidar PortFailed w =
     (w\<lparr>error_signal := error_signal w @ [''Connection failed'']\<rparr>, False)"
| "connect_lidar InfoFailed w =
     (w\<lparr>lidar := True, error_signal := error_signal w @ [''Connection failed'']\<rparr>, False)"

definition disconnect_lidar :: "worker \<Rightarrow> worker" where
  "disconnect_lidar w = w\<lparr>worker_is_scanning := False, lidar := False\<rparr>"

text \<open>
  The loop of \<open>run\<close> (lines 376-401). \<open>loop_body\<close> is one pass through the inner
  \<open>try\<close>: \<open>None\<close> is the \<open>break\<close> on \<open>StopIteration\<close>. \<open>scan_loop\<close> runs the loop over
  the frames the driver delivers; its second result says whether the loop has been left
  (\<open>True\<close>) or the worker is waiting for the next frame. The inner \<open>except Exception\<close>
  catches whatever the body raises, so the outer handler that emits
  \<open>"Scanning thread error"\<close> is never entered from the loop.
\<close>

definition loop_condition :: "worker \<Rightarrow> bool" where
  "loop_condition w =
     (worker_is_scanning w \<and> consecutive_errors w < max_consecutive_errors)"

fun loop_body :: "worker \<Rightarrow> frame \<Rightarrow> worker option" where
  "loop_body w (Scan scan) =
     (let points = worker_points scan
      in if points \<noteq> [] then
           Some (w\<lparr>data_ready := data_ready w @ [points], consecutive_errors := 0\<rparr>)
         else Some (w\<lparr>consecutive_errors := consecutive_errors w + 1\<rparr>))"
| "loop_body w StopIter = None"
| "loop_body w (ScanError e) = Some (w\<lparr>consecutive_errors := consecutive_errors w + 1\<rparr>)"

fun scan_loop :: "worker \<Rightarrow> frame list \<Rightarrow> worker \<times> bool" where
  "scan_loop w [] = (w, \<not> loop_condition w)"
| "scan_loop w (f # fs) =
     (if loop_condition w then
        (case loop_body w f of
           None \<Rightarrow> (w, True)
         | Some w' \<Rightarrow> scan_loop w' fs)
      else (w, True))"

text \<open>\<open>run\<close> (lines 367-406): the \<open>finally\<close> clause disconnects once the loop is left.\<close>

definition run :: "connect_result \<Rightarrow> frame list \<Rightarrow> worker \<Rightarrow> worker" where
  "run c frames w =
     (case connect_lidar c w of
        (w1, False) \<Rightarrow> w1
      | (w1, True) \<Rightarrow>
          (let w2 = w1\<lparr>worker_is_scanning := True, consecutive_errors := 0\<rparr>
           in case scan_loop w2 frames of
                (w3, left) \<Rightarrow> if left then disconnect_lidar w3 else w3))"

text \<open>
  A per-frame failure is a read that raised or a scan none of whose measurements passes
  the filter; \<open>all_filtered\<close> says the latter of the measurements themselves.
\<close>

fun is_failure :: "frame \<Rightarrow> bool" where
  "is_failure (ScanError e) = True"
| "is_failure (Scan scan) = (worker_points scan = [])"
| "is_failure StopIter = False"

definition all_filtered :: "measurement list \<Rightarrow> bool" where
  "all_filtered scan =
     list_all (\<lambda>m. case m of (quality, angle, distance) \<Rightarrow> distance \<le> 0 \<or> quality \<le> 0) scan"

chapter \<open>Verification\<close>

section \<open>The capacity invariant of the point store\<close>

subsection \<open>Facts about the bounded deque\<close>

lemma maxlen_deque_append: "maxlen (deque_append d x) = maxlen d"
  by (simp add: deque_append_def Let_def)

lemma maxlen_deque_extend: "maxlen (deque_extend d xs) = maxlen d"
  unfolding deque_extend_def
  by (induction xs arbitrary: d) (simp_all add: maxlen_deque_append)

lemma items_deque_append:
  assumes "length (items d) \<le> maxlen d"
  shows "items (deque_append d x) = drop (Suc (length (items d)) - maxlen d) (items d @ [x])"
proof (cases "maxlen d < Suc (length (items d))")
  case True
  with assms have one: "Suc (length (items d)) - maxlen d = Suc 0" by simp
  have "items (deque_append d x) = tl (items d @ [x])"
    using True by (simp add: deque_append_def Let_def)
  also have "\<dots> = drop (Suc 0) (items d @ [x])"
    by (simp only: drop_Suc drop_0)
  finally show ?thesis
    by (simp only: one)
next
  case False
  then show ?thesis
    by (simp add: deque_append_def Let_def)
qed

lemma length_deque_append:
  assumes "length (items d) \<le> maxlen d"
  shows "length (items (deque_append d x)) \<le> maxlen d"
  using assms by (simp add: items_deque_append)

lemma items_deque_extend:
  assumes "length (items d) \<le> maxlen d"
  shows "items (deque_extend d xs) = drop (length (items d @ xs) - maxlen d) (items d @ xs)"
  using assms
proof (induction xs arbitrary: d)
  case Nil
  then show ?case by (simp add: deque_extend_def)
next
  case (Cons x xs)
  let ?e = "deque_append d x"
  have len: "length (items ?e) \<le> maxlen ?e"
    using Cons.prems by (simp add: length_deque_append maxlen_deque_append)
  have "items (deque_extend d (x # xs)) = items (deque_extend ?e xs)"
    by (simp add: deque_extend_def)
  also have "\<dots> = drop (length (items ?e @ xs) - maxlen d) (items ?e @ xs)"
    using Cons.IH [OF len] by (simp add: maxlen_deque_append)
  also have "\<dots> = drop (length (items d @ x # xs) - maxlen d) (items d @ x # xs)"
  proof (cases "maxlen d < Suc (length (items d))")
    case True
    with Cons.prems have full: "length (items d) = maxlen d" by simp
    then have e: "items ?e = tl (items d @ [x])"
      by (simp add: deque_append_def Let_def)
    have l: "length (items ?e) = maxlen d"
      using full by (simp add: e)
    have "drop (length (items ?e @ xs) - maxlen d) (items ?e @ xs)
          = drop (length xs) (tl (items d @ [x]) @ xs)"
      using l by (simp add: e)
    also have "\<dots> = drop (length xs) (tl ((items d @ [x]) @ xs))"
    proof -
      have "items d @ [x] \<noteq> []" by simp
      then have "tl ((items d @ [x]) @ xs) = tl (items d @ [x]) @ xs"
        by (rule tl_append2)
      then show ?thesis by (rule arg_cong [OF sym])
    qed
    also have "\<dots> = drop (Suc (length xs)) ((items d @ [x]) @ xs)"
      by (simp only: drop_Suc)
    also have "\<dots> = drop (Suc (length xs)) (items d @ x # xs)"
      by simp
    also have "\<dots> = drop (length (items d @ x # xs) - maxlen d) (items d @ x # xs)"
      using full by simp
    finally show ?thesis .
  next
    case False
    then have e: "items ?e = items d @ [x]"
      by (simp add: deque_append_def Let_def)
    show ?thesis by (simp add: e)
  qed
  finally show ?case .
qed

lemma length_deque_extend:
  assumes "length (items d) \<le> maxlen d"
  shows "length (items (deque_extend d xs)) \<le> maxlen d"
  using assms by (simp add: items_deque_extend)


lemma deque_extend_batches:
  "foldl deque_extend d bs = deque_extend d (concat bs)"
  by (induction bs arbitrary: d) (simp_all add: deque_extend_def)

lemma items_extend_new_deque:
  "items (deque_extend (new_deque c) ys) = drop (length ys - c) ys"
proof -
  have "length (items (new_deque c :: 'a deque)) \<le> maxlen (new_deque c :: 'a deque)"
    by (simp add: new_deque_def)
  from items_deque_extend [OF this, of ys] show ?thesis
    by (simp add: new_deque_def)
qed

lemma most_recent_min: "most_recent (min c (length xs)) xs = drop (length xs - c) xs"
  by (simp add: most_recent_def min_def)

subsection \<open>Facts about the trimmed list\<close>

lemma viewer_store_drop:
  "viewer_store (drop (length acc - viewer_capacity) acc) b
   = drop (length (acc @ b) - viewer_capacity) (acc @ b)"
proof (cases "b = []")
  case True
  then show ?thesis by (simp add: viewer_store_def)
next
  case False
  show ?thesis
  proof (cases "length acc \<le> viewer_capacity")
    case True
    with False show ?thesis by (simp add: viewer_store_def Let_def)
  next
    case over: False
    then have "length acc - viewer_capacity + (length b) = length acc + length b - viewer_capacity"
      by simp
    with False over show ?thesis
      by (simp add: viewer_store_def Let_def add.commute)
  qed
qed

lemma viewer_store_batches:
  "foldl viewer_store (drop (length acc - viewer_capacity) acc) bs
   = drop (length (acc @ concat bs) - viewer_capacity) (acc @ concat bs)"
proof (induction bs arbitrary: acc)
  case Nil
  then show ?case by simp
next
  case (Cons b bs)
  have "foldl viewer_store (drop (length acc - viewer_capacity) acc) (b # bs)
        = foldl viewer_store (drop (length (acc @ b) - viewer_capacity) (acc @ b)) bs"
    by (simp only: foldl_Cons viewer_store_drop)
  also have "\<dots> = drop (length ((acc @ b) @ concat bs) - viewer_capacity) ((acc @ b) @ concat bs)"
    by (rule Cons.IH)
  finally show ?case by simp
qed

text \<open>
  Claim C1. Whatever batches are inserted into an empty point store of capacity \<open>c\<close>,
  point by point or batch by batch, the store never holds more than \<open>c\<close> points and it
  holds exactly the \<open>min c n\<close> most recently inserted of the \<open>n\<close> points, in insertion
  order. Since the batches are arbitrary, this is the state after each insertion. The same
  holds for the trimmed list of the viewer with its capacity of 2000.
\<close>

theorem capacity_invariant:
  "length (items (deque_extend (new_deque c) xs)) \<le> c
   \<and> items (deque_extend (new_deque c) xs) = most_recent (min c (length xs)) xs
   \<and> items (foldl deque_extend (new_deque c) bs)
       = most_recent (min c (length (concat bs))) (concat bs)
   \<and> length (foldl viewer_store [] bs) \<le> viewer_capacity
   \<and> foldl viewer_store [] bs
       = most_recent (min viewer_capacity (length (concat bs))) (concat bs)"
proof -
  have v: "foldl viewer_store [] bs = drop (length (concat bs) - viewer_capacity) (concat bs)"
    using viewer_store_batches [of "[]" bs] by simp
  have a: "n - (n - k) \<le> k" for n k :: nat
    by arith
  show ?thesis
    by (simp add: items_extend_new_deque v deque_extend_batches most_recent_min a)
qed

section \<open>The derived metrics\<close>

subsection \<open>The builtins compute the greatest and the least element\<close>

lemma py_max_Max: "xs \<noteq> [] \<Longrightarrow> py_max xs = Inr (Max (set xs))"
proof (cases xs)
  case Nil
  moreover assume "xs \<noteq> []"
  ultimately show ?thesis by simp
next
  case (Cons x ys)
  have f: "(\<lambda>m v :: real. if m < v then v else m) = max"
    by (intro ext) (simp add: max_def)
  have "foldl max x ys = fold max ys x"
    by (simp add: foldl_conv_fold max.commute)
  moreover have "Max (set (x # ys)) = fold max ys x"
    by (rule Max.set_eq_fold)
  ultimately show ?thesis
    by (simp add: Cons f)
qed

lemma py_min_Min: "xs \<noteq> [] \<Longrightarrow> py_min xs = Inr (Min (set xs))"
proof (cases xs)
  case Nil
  moreover assume "xs \<noteq> []"
  ultimately show ?thesis by simp
next
  case (Cons x ys)
  have f: "(\<lambda>m v :: real. if v < m then v else m) = min"
    by (intro ext) (auto simp add: min_def)
  have "foldl min x ys = fold min ys x"
    by (simp add: foldl_conv_fold min.commute)
  moreover have "Min (set (x # ys)) = fold min ys x"
    by (rule Min.set_eq_fold)
  ultimately show ?thesis
    by (simp add: Cons f)
qed

lemma measure_room_above:
  assumes "100 < length pts"
  shows "measure_room pts =
     Inr (Some \<lparr>width = Max (fst ` set pts) - Min (fst ` set pts),
                height = Max (snd ` set pts) - Min (snd ` set pts),
                area = (Max (fst ` set pts) - Min (fst ` set pts))
                        * (Max (snd ` set pts) - Min (snd ` set pts)) / 1000000,
                perimeter = 2 * ((Max (fst ` set pts) - Min (fst ` set pts))
                        + (Max (snd ` set pts) - Min (snd ` set pts))),
                center = ((Max (fst ` set pts) + Min (fst ` set pts)) / 2,
                          (Max (snd ` set pts) + Min (snd ` set pts)) / 2),
                bounds = (Min (fst ` set pts), Min (snd ` set pts),
                          Max (fst ` set pts), Max (snd ` set pts)),
                point_count = length pts\<rparr>)"
proof -
  from assms have ne: "map fst pts \<noteq> []" "map snd pts \<noteq> []"
    by auto
  show ?thesis
    using assms
    by (simp add: measure_room_def Let_def py_max_Max [OF ne(1)] py_min_Min [OF ne(1)]
        py_max_Max [OF ne(2)] py_min_Min [OF ne(2)])
qed

lemma measure_room_below: "length pts \<le> 100 \<Longrightarrow> measure_room pts = Inr None"
  by (simp add: measure_room_def)

lemma set_replicate_origin: "0 < n \<Longrightarrow> set (replicate n (0::real, 0::real)) = {(0, 0)}"
  by (simp add: set_replicate_conv_if)

text \<open>
  Claim C3. Above the minimum-sample threshold the metrics are those of the axis-aligned
  bounding box of the points: width and height are the extents in x and y, the area is
  their product divided by 1,000,000, the perimeter twice their sum, and the centre the
  midpoint of the box.
\<close>

theorem measure_room_bounding_box:
  assumes "100 < length pts"
  shows "\<exists>m. measure_room pts = Inr (Some m)
    \<and> width m = Max (fst ` set pts) - Min (fst ` set pts)
    \<and> height m = Max (snd ` set pts) - Min (snd ` set pts)
    \<and> area m = width m * height m / 1000000
    \<and> perimeter m = 2 * (width m + height m)
    \<and> center m = ((Max (fst ` set pts) + Min (fst ` set pts)) / 2,
                   (Max (snd ` set pts) + Min (snd ` set pts)) / 2)"
  by (simp add: measure_room_above [OF assms])

theorem measure_room_bounding_box_witness:
  "100 < length (replicate 99 (0::real, 0::real) @ [(3000, 0), (0, 4000)])
   \<and> (\<exists>m. measure_room (replicate 99 (0, 0) @ [(3000, 0), (0, 4000)]) = Inr (Some m)
        \<and> width m = 3000 \<and> height m = 4000 \<and> area m = 12 \<and> perimeter m = 14000
        \<and> center m = (1500, 2000))"
proof -
  have h: "100 < length (replicate 99 (0::real, 0::real) @ [(3000, 0), (0, 4000)])"
    by simp
  have s: "set (replicate 99 (0::real, 0::real) @ [(3000, 0), (0, 4000)])
           = {(0, 0), (3000, 0), (0, 4000)}"
    by (auto simp add: set_replicate_conv_if)
  from measure_room_bounding_box [OF h] obtain m where
    m: "measure_room (replicate 99 (0, 0) @ [(3000, 0), (0, 4000)]) = Inr (Some m)"
      "width m = 3000" "height m = 4000" "area m = width m * height m / 1000000"
      "perimeter m = 2 * (width m + height m)" "center m = (1500, 2000)"
    unfolding s by auto
  from m have "area m = 12" "perimeter m = 14000" by simp_all
  with h m show ?thesis by blast
qed

text \<open>
  Claim C2, as the code has it. The metrics are absent exactly when there are at most 100
  points, and the computation never raises: 99 points and 100 points both give \<open>None\<close>,
  and 101 identical points at the origin give area, width and height 0.
\<close>

theorem measure_room_threshold:
  "(measure_room pts = Inr None) = (length pts \<le> 100)
   \<and> measure_room pts \<noteq> Inl e
   \<and> measure_room (replicate 99 (0, 0)) = Inr None
   \<and> measure_room (replicate 100 (0, 0)) = Inr None
   \<and> (\<exists>m. measure_room (replicate 101 (0, 0)) = Inr (Some m)
         \<and> area m = 0 \<and> width m = 0 \<and> height m = 0)"
proof -
  have a: "(measure_room pts = Inr None) = (length pts \<le> 100)"
    using measure_room_above [of pts] measure_room_below [of pts]
    by (cases "length pts \<le> 100") simp_all
  have b: "measure_room pts \<noteq> Inl e"
    using measure_room_above [of pts] measure_room_below [of pts]
    by (cases "length pts \<le> 100") simp_all
  have c: "measure_room (replicate 99 (0, 0)) = Inr None"
    "measure_room (replicate 100 (0, 0)) = Inr None"
    by (simp_all add: measure_room_below)
  have d: "\<exists>m. measure_room (replicate 101 (0, 0)) = Inr (Some m)
         \<and> area m = 0 \<and> width m = 0 \<and> height m = 0"
    by (simp add: measure_room_above set_replicate_origin)
  from a b c d show ?thesis by blast
qed

text \<open>
  The claim as the specification states it fails at exactly 100 points: the count is not
  below 100, and yet no metrics are returned.
\<close>

theorem measure_room_100_counterexample:
  "\<not> length (replicate 100 (0::real, 0::real)) < 100
   \<and> measure_room (replicate 100 (0, 0)) = Inr None"
  by (simp add: measure_room_below)

section \<open>The converter\<close>

text \<open>
  Claim C4. A measurement is rejected exactly when its distance is not positive, or its
  quality is not positive, or its distance exceeds the configured maximum; every other
  measurement is accepted, and the accepted point carries the Cartesian coordinates.
\<close>

theorem convert_rejects_exactly:
  "(convert max_distance (quality, angle, distance) = None)
     = (distance \<le> 0 \<or> quality \<le> 0 \<or> of_int max_distance < distance)
   \<and> (convert max_distance (quality, angle, distance) \<noteq> None) =
       (convert max_distance (quality, angle, distance)
          = Some (PList [PFloat (distance * cos (radians angle)),
                         PFloat (distance * sin (radians angle)),
                         PInt quality, PFloat distance]))"
  by (auto simp add: convert_def Let_def)

section \<open>The scheduler\<close>

lemma all_points_update_visualization [simp]:
  "all_points (update_visualization st) = all_points st"
  "scan_count (update_visualization st) = scan_count st"
  "is_scanning (update_visualization st) = is_scanning st"
  "viz_calls (update_visualization st) = Suc (viz_calls st)"
  by (simp_all add: update_visualization_def)

lemma stop_scan_fields [simp]:
  "all_points (stop_scan st) = all_points st"
  "scan_count (stop_scan st) = scan_count st"
  "is_scanning (stop_scan st) = False"
  "viz_calls (stop_scan st) = Suc (viz_calls st)"
  by (simp_all add: stop_scan_def)

lemma showerror_fields [simp]:
  "all_points (showerror msg st) = all_points st"
  "scan_count (showerror msg st) = scan_count st"
  "is_scanning (showerror msg st) = is_scanning st"
  "viz_calls (showerror msg st) = viz_calls st"
  by (simp_all add: showerror_def)

lemma merge_batch_fields [simp]:
  "all_points (merge_batch st data) = deque_extend (all_points st) data"
  "scan_count (merge_batch st data) = scan_count st + 1"
  "is_scanning (merge_batch st data) = is_scanning st"
  "viz_calls (merge_batch st data)
     = viz_calls st + (if (scan_count st + 1) mod 3 = 0 then 1 else 0)"
  by (simp_all add: merge_batch_def Let_def)








subsection \<open>Faults in the queue\<close>



lemma errors_shown_fields [simp]:
  "errors_shown (update_visualization st) = errors_shown st"
  "errors_shown (stop_scan st) = errors_shown st"
  "errors_shown (merge_batch st data) = errors_shown st"
  "errors_shown (showerror msg st) = errors_shown st @ [msg]"
  by (simp_all add: update_visualization_def stop_scan_def merge_batch_def Let_def
      showerror_def)





section \<open>The interchange codec\<close>

lemma load_failed_fields [simp]:
  "fst (load_failed e st) = Inl e"
  "all_points (snd (load_failed e st)) = all_points st"
  "scan_count (snd (load_failed e st)) = scan_count st"
  by (simp_all add: load_failed_def showerror_def)

lemma items_loaded_gui: "items (all_points loaded_gui) = [point_a, point_b]"
  by (simp add: loaded_gui_def scanning_gui_def new_deque_def deque_extend_def
      deque_append_def)

lemma maxlen_loaded_gui: "maxlen (all_points loaded_gui) = 150000"
  by (simp add: loaded_gui_def maxlen_deque_extend new_deque_def)

lemma load_json_points:
  "load_data to_float irregular (JsonFile (Some (PDict ((''points'', PList ps) # rest)))) st
   = (let st4 = update_visualization
                  (st\<lparr>all_points := deque_extend (deque_clear (all_points st)) ps,
                      scan_count := int (length ps) div 100\<rparr>)
      in case visualization_error irregular (items (all_points st4)) of
           Some e \<Rightarrow> load_failed e st4
         | None \<Rightarrow> (Inr (), st4))"
  by (simp add: load_data_def Let_def split: option.splits)

lemma table_width_points:
  assumes "ps \<noteq> []" and "list_all is_point ps"
  shows "table_width ps = Some 4"
proof -
  have p: "is_point = (\<lambda>q. row_width q = Some 4)"
    by (simp add: fun_eq_iff is_point_def)
  from assms show ?thesis
    by (cases ps) (simp_all add: table_width_def p)
qed

lemma visualization_error_points:
  "list_all is_point ps \<Longrightarrow> visualization_error irregular ps = None"
  by (cases "ps = []") (simp_all add: visualization_error_def table_width_points)

lemma is_point_examples: "is_point point_a" "is_point point_b"
  by (simp_all add: is_point_def point_a_def point_b_def)

lemma maxlen_deque_clear: "maxlen (deque_clear d) = maxlen d"
  by (simp add: deque_clear_def)

lemma items_clear_extend:
  assumes "length ps \<le> maxlen d"
  shows "items (deque_extend (deque_clear d) ps) = ps"
proof -
  have "length (items (deque_clear d)) \<le> maxlen (deque_clear d)"
    by (simp add: deque_clear_def)
  from items_deque_extend [OF this, of ps] assms show ?thesis
    by (simp add: deque_clear_def)
qed

text \<open>
  Claim C7, as the code has it. A non-empty store within its capacity is exported to the
  structured format, and importing that file into a store of the same capacity, whatever
  it held, gives exactly the exported points in the same order, for any timestamp. The
  file records the number of points and the filter distance; the batch counter is not
  restored but estimated from the number of points. The import reports success exactly
  when the redraw that follows does not raise, as it does not when every point is a list
  of four numbers; when it raises, the failure is reported with the points already in
  place.
\<close>

theorem export_import_roundtrip:
  assumes "items (all_points st) \<noteq> []"
    and "length (items (all_points st)) \<le> maxlen (all_points st)"
    and "maxlen (all_points st') = maxlen (all_points st)"
  shows "\<exists>f. export_data now to_str JsonName st = Some f
    \<and> items (all_points (snd (load_data to_float irregular f st'))) = items (all_points st)
    \<and> maxlen (all_points (snd (load_data to_float irregular f st'))) = maxlen (all_points st)
    \<and> scan_count (snd (load_data to_float irregular f st'))
        = int (length (items (all_points st))) div 100
    \<and> fst (load_data to_float irregular f st')
        = (case visualization_error irregular (items (all_points st)) of
             None \<Rightarrow> Inr ()
           | Some e \<Rightarrow> Inl e)
    \<and> (list_all is_point (items (all_points st))
         \<longrightarrow> fst (load_data to_float irregular f st') = Inr ())"
proof -
  let ?ps = "items (all_points st)"
  let ?f = "JsonFile (Some (PDict
              [(''points'', PList ?ps), (''scan_count'', PInt (scan_count st)),
               (''timestamp'', PStr now), (''total_points'', PInt (int (length ?ps))),
               (''filter_distance'', PInt (filter_distance st))]))"
  have e: "export_data now to_str JsonName st = Some ?f"
    using assms(1) by (simp add: export_data_def Let_def)
  have l: "length ?ps \<le> maxlen (all_points st')"
    using assms(2) assms(3) by simp
  have r: "items (all_points (snd (load_data to_float irregular ?f st'))) = ?ps"
    "maxlen (all_points (snd (load_data to_float irregular ?f st'))) = maxlen (all_points st)"
    "scan_count (snd (load_data to_float irregular ?f st')) = int (length ?ps) div 100"
    "fst (load_data to_float irregular ?f st')
       = (case visualization_error irregular ?ps of None \<Rightarrow> Inr () | Some e \<Rightarrow> Inl e)"
    using assms(3)
    by (simp_all add: load_json_points Let_def items_clear_extend [OF l]
        maxlen_deque_extend maxlen_deque_clear split: option.splits)
  have "list_all is_point ?ps \<longrightarrow> fst (load_data to_float irregular ?f st') = Inr ()"
    by (simp add: r(4) visualization_error_points)
  with e r show ?thesis by blast
qed

theorem export_import_roundtrip_witness:
  "items (all_points loaded_gui) \<noteq> []
   \<and> length (items (all_points loaded_gui)) \<le> maxlen (all_points loaded_gui)
   \<and> maxlen (all_points init_gui) = maxlen (all_points loaded_gui)
   \<and> list_all is_point (items (all_points loaded_gui))
   \<and> (\<exists>f. export_data ''2026-01-01T00:00:00'' (\<lambda>v. '''') JsonName loaded_gui = Some f
        \<and> fst (load_data demo_float demo_irregular f init_gui) = Inr ()
        \<and> items (all_points (snd (load_data demo_float demo_irregular f init_gui)))
            = [point_a, point_b])"
proof -
  have h: "items (all_points loaded_gui) \<noteq> []"
    "length (items (all_points loaded_gui)) \<le> maxlen (all_points loaded_gui)"
    "maxlen (all_points init_gui) = maxlen (all_points loaded_gui)"
    by (simp_all add: items_loaded_gui maxlen_loaded_gui init_gui_def new_deque_def)
  have p: "list_all is_point (items (all_points loaded_gui))"
    by (simp add: items_loaded_gui is_point_examples)
  from export_import_roundtrip [OF h, of "''2026-01-01T00:00:00''" "\<lambda>v. ''''" demo_float
      demo_irregular]
  show ?thesis using h p by (auto simp add: items_loaded_gui)
qed

text \<open>
  A store of two-field rows, as a file of another variant loads them, comes back point
  for point as well, and the import reports the \<open>IndexError\<close> of the redraw.
\<close>

lemma roundtrip_of_short_rows:
  "load_data demo_float demo_irregular
     (JsonFile (Some (PDict [(''points'', PList [PList [PInt 1, PInt 2]])]))) init_gui
   = (Inl IndexError,
      showerror ''Failed to load data''
        (update_visualization
          (init_gui\<lparr>all_points := deque_extend (deque_clear (all_points init_gui))
                                      [PList [PInt 1, PInt 2]],
                      scan_count := 0\<rparr>)))
   \<and> items (all_points (snd (load_data demo_float demo_irregular
        (JsonFile (Some (PDict [(''points'', PList [PList [PInt 1, PInt 2]])]))) init_gui)))
      = [PList [PInt 1, PInt 2]]"
  by (simp add: load_json_points Let_def load_failed_def visualization_error_def
      table_width_def init_gui_def new_deque_def deque_clear_def deque_extend_def
      deque_append_def update_visualization_def showerror_def)


text \<open>
  The claim as the specification states it fails for the store of no points, which is
  within every capacity: \<open>export_data\<close> returns before it writes, so there is no file to
  import.
\<close>

theorem export_empty_store_counterexample:
  "length (items (all_points init_gui)) \<le> maxlen (all_points init_gui)
   \<and> export_data ''2026-01-01T00:00:00'' (\<lambda>v. '''') JsonName init_gui = None"
  by (simp add: export_data_def init_gui_def new_deque_def)

subsection \<open>Import of a malformed file\<close>

lemma csv_fields_bad:
  assumes "length row < n \<or> list_ex (\<lambda>c. to_float c = None) (take n row)"
  shows "\<exists>e. csv_fields to_float n row = Inl e"
  using assms
proof (induction n arbitrary: row)
  case 0
  then show ?case by simp
next
  case (Suc n)
  show ?case
  proof (cases row)
    case Nil
    then show ?thesis by simp
  next
    case (Cons c r)
    show ?thesis
    proof (cases "to_float c")
      case None
      with Cons show ?thesis by simp
    next
      case (Some v)
      with Suc.prems Cons have "length r < n \<or> list_ex (\<lambda>c. to_float c = None) (take n r)"
        by simp
      from Suc.IH [OF this] obtain e where "csv_fields to_float n r = Inl e" ..
      with Cons Some show ?thesis by simp
    qed
  qed
qed

lemma csv_points_bad:
  assumes "list_ex (bad_row to_float) rows"
  shows "\<exists>e. csv_points to_float rows = Inl e"
  using assms
proof (induction rows)
  case Nil
  then show ?case by simp
next
  case (Cons row rows)
  show ?case
  proof (cases "bad_row to_float row")
    case True
    then obtain e where "csv_fields to_float 4 row = Inl e"
      using csv_fields_bad [of row 4 to_float] by auto
    then show ?thesis by simp
  next
    case False
    with Cons.prems have "list_ex (bad_row to_float) rows"
      by (simp del: bad_row.simps)
    from Cons.IH [OF this] show ?thesis
      by (auto split: sum.splits)
  qed
qed

lemma getitem_points_missing:
  "''points'' \<notin> fst ` set kvs \<Longrightarrow> getitem_points (PDict kvs) = Inl KeyError"
proof -
  assume "''points'' \<notin> fst ` set kvs"
  then have "map_of kvs ''points'' = None"
    by (simp add: map_of_eq_None_iff)
  then show ?thesis by simp
qed

lemma read_points_malformed:
  "malformed_at_read to_float doc \<Longrightarrow> \<exists>e. read_points to_float doc = Inl e"
proof (induction to_float doc rule: malformed_at_read.induct)
  case (2 to_float kvs)
  then have "''points'' \<notin> fst ` set kvs"
    by simp
  then have "getitem_points (PDict kvs) = Inl KeyError"
    by (rule getitem_points_missing)
  then show ?case by (simp del: getitem_points.simps)
next
  case (5 to_float header rows)
  then obtain e where "csv_points to_float rows = Inl e"
    using csv_points_bad [of to_float rows] by auto
  then show ?case by simp
qed simp_all

text \<open>
  Claim C9, as the code has it. When the file is malformed where it is read (JSON text
  that does not parse, no \<open>points\<close> entry in a top-level dictionary, a missing header
  row, a short or non-numeric data row), \<open>load_data\<close> reports the exception and the
  store and the batch counter are exactly as before.
\<close>

theorem import_read_fault_leaves_store:
  assumes "malformed_at_read to_float doc"
  shows "\<exists>e. fst (load_data to_float irregular doc st) = Inl e
    \<and> all_points (snd (load_data to_float irregular doc st)) = all_points st
    \<and> scan_count (snd (load_data to_float irregular doc st)) = scan_count st
    \<and> errors_shown (snd (load_data to_float irregular doc st))
        = errors_shown st @ [''Failed to load data'']"
proof -
  from read_points_malformed [OF assms] obtain e where
    "read_points to_float doc = Inl e" ..
  then show ?thesis
    by (simp add: load_data_def load_failed_def showerror_def)
qed

theorem import_read_fault_leaves_store_witness:
  "malformed_at_read demo_float (CsvFile [[''X'', ''Y''], [''1.5'', ''2'', ''2'', ''2''], [''1.5'', ''oops'', ''2'', ''2'']])
   \<and> malformed_at_read demo_float (JsonFile (Some (PDict [(''scan_count'', PInt 3)])))
   \<and> fst (load_data demo_float demo_irregular (CsvFile [[''X'', ''Y''], [''1.5'', ''2'', ''2'', ''2''], [''1.5'', ''oops'', ''2'', ''2'']]) loaded_gui)
       = Inl ValueError
   \<and> items (all_points (snd (load_data demo_float demo_irregular (CsvFile [[''X'', ''Y''], [''1.5'', ''2'', ''2'', ''2''], [''1.5'', ''oops'', ''2'', ''2'']]) loaded_gui)))
       = [point_a, point_b]
   \<and> fst (load_data demo_float demo_irregular (JsonFile (Some (PDict [(''scan_count'', PInt 3)]))) loaded_gui)
       = Inl KeyError
   \<and> items (all_points (snd (load_data demo_float demo_irregular (JsonFile (Some (PDict [(''scan_count'', PInt 3)]))) loaded_gui)))
       = [point_a, point_b]"
proof -
  let ?c = "CsvFile [[''X'', ''Y''], [''1.5'', ''2'', ''2'', ''2''], [''1.5'', ''oops'', ''2'', ''2'']]"
  let ?j = "JsonFile (Some (PDict [(''scan_count'', PInt 3)]))"
  have hc: "malformed_at_read demo_float ?c"
    by (simp add: demo_float_def)
  have hj: "malformed_at_read demo_float ?j"
    by simp
  have fc: "fst (load_data demo_float demo_irregular ?c loaded_gui) = Inl ValueError"
    by (simp add: load_data_def demo_float_def eval_nat_numeral)
  have fj: "fst (load_data demo_float demo_irregular ?j loaded_gui) = Inl KeyError"
    by (simp add: load_data_def)
  from import_read_fault_leaves_store [OF hc, of demo_irregular loaded_gui]
    import_read_fault_leaves_store [OF hj, of demo_irregular loaded_gui]
  show ?thesis using hc hj fc fj by (simp add: items_loaded_gui)
qed

text \<open>
  The claim as the specification states it fails: a \<open>.json\<close> file whose \<open>points\<close> entry
  is a number is reported as a failure (\<open>TypeError\<close>), and the store that held two
  points is left empty. The same happens for \<open>null\<close>, and for a file whose name ends in
  neither suffix.
\<close>

theorem import_failure_clears_store_counterexample:
  "items (all_points loaded_gui) = [point_a, point_b]
   \<and> fst (load_data demo_float demo_irregular (JsonFile (Some (PDict [(''points'', PInt 5)]))) loaded_gui)
       = Inl TypeError
   \<and> items (all_points (snd (load_data demo_float demo_irregular
        (JsonFile (Some (PDict [(''points'', PInt 5)]))) loaded_gui))) = []
   \<and> fst (load_data demo_float demo_irregular OtherFile loaded_gui) = Inl UnboundLocalError
   \<and> items (all_points (snd (load_data demo_float demo_irregular OtherFile loaded_gui))) = []"
  by (simp add: items_loaded_gui load_data_def Let_def deque_clear_def)

section \<open>The consecutive-error threshold\<close>

lemma failure_step:
  "is_failure f \<Longrightarrow> loop_body w f = Some (w\<lparr>consecutive_errors := consecutive_errors w + 1\<rparr>)"
  by (cases f) (simp_all add: Let_def)

lemma failures_below_threshold:
  assumes "list_all is_failure fs" and "worker_is_scanning w"
    and "consecutive_errors w + int (length fs) < max_consecutive_errors"
  shows "scan_loop w fs
         = (w\<lparr>consecutive_errors := consecutive_errors w + int (length fs)\<rparr>, False)"
  using assms
proof (induction fs arbitrary: w)
  case Nil
  then show ?case by (simp add: loop_condition_def)
next
  case (Cons f fs)
  let ?w = "w\<lparr>consecutive_errors := consecutive_errors w + 1\<rparr>"
  from Cons.prems have c: "loop_condition w"
    by (simp add: loop_condition_def)
  from Cons.prems have b: "loop_body w f = Some ?w"
    by (simp add: failure_step)
  have "scan_loop ?w fs
        = (?w\<lparr>consecutive_errors := consecutive_errors ?w + int (length fs)\<rparr>, False)"
    using Cons.prems by (intro Cons.IH) simp_all
  with c b show ?case by (simp add: add.assoc)
qed

lemma failures_reach_threshold:
  assumes "list_all is_failure fs" and "worker_is_scanning w"
    and "consecutive_errors w \<le> max_consecutive_errors"
    and "max_consecutive_errors \<le> consecutive_errors w + int (length fs)"
  shows "scan_loop w fs = (w\<lparr>consecutive_errors := max_consecutive_errors\<rparr>, True)"
  using assms
proof (induction fs arbitrary: w)
  case Nil
  then have "consecutive_errors w = max_consecutive_errors" by simp
  then show ?case by (simp add: loop_condition_def)
next
  case (Cons f fs)
  show ?case
  proof (cases "consecutive_errors w = max_consecutive_errors")
    case True
    then have "\<not> loop_condition w" by (simp add: loop_condition_def)
    with True show ?thesis by simp
  next
    case False
    let ?w = "w\<lparr>consecutive_errors := consecutive_errors w + 1\<rparr>"
    from False Cons.prems have c: "loop_condition w"
      by (simp add: loop_condition_def)
    from Cons.prems have b: "loop_body w f = Some ?w"
      by (simp add: failure_step)
    have "scan_loop ?w fs = (?w\<lparr>consecutive_errors := max_consecutive_errors\<rparr>, True)"
      using Cons.prems False by (intro Cons.IH) simp_all
    with c b show ?thesis by simp
  qed
qed

lemma failures_from_zero:
  assumes "list_all is_failure fs" and "worker_is_scanning w" and "consecutive_errors w = 0"
  shows "scan_loop w fs
         = (w\<lparr>consecutive_errors := min 3 (int (length fs))\<rparr>, 3 \<le> length fs)"
proof (cases "length fs < 3")
  case True
  with assms failures_below_threshold [OF assms(1) assms(2)] show ?thesis
    by (simp add: max_consecutive_errors_def)
next
  case False
  with assms failures_reach_threshold [OF assms(1) assms(2)] show ?thesis
    by (simp add: max_consecutive_errors_def)
qed

lemma run_failures:
  assumes "list_all is_failure fs"
  shows "run Connected fs w
         = (if 3 \<le> length fs
            then w\<lparr>worker_is_scanning := False, lidar := False, consecutive_errors := 3,
                   info_signal := Suc (info_signal w)\<rparr>
            else w\<lparr>worker_is_scanning := True, lidar := True,
                   consecutive_errors := int (length fs),
                   info_signal := Suc (info_signal w)\<rparr>)"
proof -
  let ?w = "w\<lparr>lidar := True, info_signal := Suc (info_signal w),
               worker_is_scanning := True, consecutive_errors := 0\<rparr>"
  have "scan_loop ?w fs = (?w\<lparr>consecutive_errors := min 3 (int (length fs))\<rparr>, 3 \<le> length fs)"
    by (rule failures_from_zero [OF assms]) simp_all
  then show ?thesis
    by (simp add: run_def Let_def disconnect_lidar_def)
qed

lemma worker_points_empty: "(worker_points scan = []) = all_filtered scan"
  by (induction scan)
     (auto simp add: worker_points_def all_filtered_def List.map_filter_simps Let_def
        split: option.splits if_splits)

text \<open>
  Claim C6, as the code has it. A successful frame sets the counter of consecutive
  failures to zero. From there, the loop goes on while fewer than 3 failures have
  followed and is left as soon as 3 have: the worker then clears its scanning flag and
  disconnects. The same holds from the start of \<open>run\<close>. A failure is a read that raised
  or a frame with no accepted point.
\<close>

theorem consecutive_error_threshold:
  assumes "list_all is_failure fs" and "worker_points scan \<noteq> []"
    and "worker_is_scanning w" and "consecutive_errors w < max_consecutive_errors"
  shows "loop_body w (Scan scan)
           = Some (w\<lparr>data_ready := data_ready w @ [worker_points scan],
                      consecutive_errors := 0\<rparr>)
    \<and> snd (scan_loop w (Scan scan # fs)) = (3 \<le> length fs)
    \<and> consecutive_errors (fst (scan_loop w (Scan scan # fs))) = min 3 (int (length fs))
    \<and> worker_is_scanning (run Connected (Scan scan # fs) w') = (length fs < 3)
    \<and> lidar (run Connected (Scan scan # fs) w') = (length fs < 3)
    \<and> worker_is_scanning (run Connected fs w') = (length fs < 3)
    \<and> lidar (run Connected fs w') = (length fs < 3)"
proof -
  let ?ok = "w\<lparr>data_ready := data_ready w @ [worker_points scan], consecutive_errors := 0\<rparr>"
  have b: "loop_body w (Scan scan) = Some ?ok"
    using assms(2) by (simp add: Let_def)
  have c: "loop_condition w"
    using assms(3) assms(4) by (simp add: loop_condition_def)
  have "scan_loop ?ok fs = (?ok\<lparr>consecutive_errors := min 3 (int (length fs))\<rparr>, 3 \<le> length fs)"
    using assms(3) by (intro failures_from_zero [OF assms(1)]) simp_all
  with b c have s: "scan_loop w (Scan scan # fs)
      = (?ok\<lparr>consecutive_errors := min 3 (int (length fs))\<rparr>, 3 \<le> length fs)"
    by (simp del: loop_body.simps)
  let ?w1 = "w'\<lparr>lidar := True, info_signal := Suc (info_signal w'),
                 worker_is_scanning := True, consecutive_errors := 0\<rparr>"
  let ?ok1 = "?w1\<lparr>data_ready := data_ready ?w1 @ [worker_points scan], consecutive_errors := 0\<rparr>"
  have b1: "loop_body ?w1 (Scan scan) = Some ?ok1"
    using assms(2) by (simp add: Let_def)
  have c1: "loop_condition ?w1"
    by (simp add: loop_condition_def max_consecutive_errors_def)
  have "scan_loop ?ok1 fs = (?ok1\<lparr>consecutive_errors := min 3 (int (length fs))\<rparr>, 3 \<le> length fs)"
    by (intro failures_from_zero [OF assms(1)]) simp_all
  with b1 c1 have s1: "scan_loop ?w1 (Scan scan # fs)
      = (?ok1\<lparr>consecutive_errors := min 3 (int (length fs))\<rparr>, 3 \<le> length fs)"
    by (simp del: loop_body.simps)
  have r: "worker_is_scanning (run Connected (Scan scan # fs) w') = (length fs < 3)"
    "lidar (run Connected (Scan scan # fs) w') = (length fs < 3)"
    using s1 by (auto simp add: run_def Let_def disconnect_lidar_def simp del: scan_loop.simps)
  have r0: "worker_is_scanning (run Connected fs w') = (length fs < 3)"
    "lidar (run Connected fs w') = (length fs < 3)"
    by (auto simp add: run_failures [OF assms(1)])
  from b s r r0 show ?thesis by simp
qed

theorem consecutive_error_threshold_witness:
  "list_all is_failure [ScanError ''timeout'', Scan [(0, 10, 500)], ScanError ''checksum'']
   \<and> worker_points [(15, 0, 1000)] \<noteq> []
   \<and> worker_is_scanning (init_worker\<lparr>worker_is_scanning := True, consecutive_errors := 2\<rparr>)
   \<and> consecutive_errors (init_worker\<lparr>worker_is_scanning := True, consecutive_errors := 2\<rparr>)
       < max_consecutive_errors
   \<and> snd (scan_loop (init_worker\<lparr>worker_is_scanning := True, consecutive_errors := 2\<rparr>)
        (Scan [(15, 0, 1000)]
         # [ScanError ''timeout'', Scan [(0, 10, 500)], ScanError ''checksum'']))
   \<and> \<not> worker_is_scanning (run Connected
        [ScanError ''timeout'', Scan [(0, 10, 500)], ScanError ''checksum''] init_worker)
   \<and> \<not> lidar (run Connected
        [ScanError ''timeout'', Scan [(0, 10, 500)], ScanError ''checksum''] init_worker)"
proof -
  let ?fs = "[ScanError ''timeout'', Scan [(0, 10, 500)], ScanError ''checksum'']"
  let ?w = "init_worker\<lparr>worker_is_scanning := True, consecutive_errors := 2\<rparr>"
  have h: "list_all is_failure ?fs" "worker_points [(15, 0, 1000)] \<noteq> []"
    "worker_is_scanning ?w" "consecutive_errors ?w < max_consecutive_errors"
    by (simp_all add: worker_points_def List.map_filter_simps Let_def init_worker_def
        max_consecutive_errors_def)
  from consecutive_error_threshold [OF h, of init_worker] h show ?thesis
    by simp
qed

text \<open>
  The claim as the specification states it fails in its transition to \<open>Error\<close>: after
  three consecutive read failures the worker has stopped and disconnected, and it has
  emitted nothing on \<open>error_signal\<close>, the only channel on which the GUI learns of an
  error.
\<close>

theorem threshold_without_error_signal_counterexample:
  "\<not> worker_is_scanning (run Connected
        [ScanError ''timeout'', ScanError ''timeout'', ScanError ''timeout''] init_worker)
   \<and> error_signal (run Connected
        [ScanError ''timeout'', ScanError ''timeout'', ScanError ''timeout''] init_worker) = []"
  by (simp add: run_def Let_def init_worker_def loop_condition_def max_consecutive_errors_def
      disconnect_lidar_def)

text \<open>
  Claim C10. A frame all of whose measurements are filtered out takes the same step as a
  read that raised: the counter goes up by one and nothing is emitted. So a run of three
  such frames ends the scanning, with the flag cleared and the device disconnected,
  although no read failed.
\<close>

theorem empty_frames_count_as_errors:
  assumes "list_all all_filtered scans" and "length scans = 3" and "all_filtered scan"
  shows "loop_body w (Scan scan) = loop_body w (ScanError e)
    \<and> loop_body w (Scan scan) = Some (w\<lparr>consecutive_errors := consecutive_errors w + 1\<rparr>)
    \<and> \<not> worker_is_scanning (run Connected (map Scan scans) w)
    \<and> \<not> lidar (run Connected (map Scan scans) w)
    \<and> consecutive_errors (run Connected (map Scan scans) w) = max_consecutive_errors
    \<and> data_ready (run Connected (map Scan scans) w) = data_ready w
    \<and> error_signal (run Connected (map Scan scans) w) = error_signal w"
proof -
  have f: "list_all is_failure (map Scan scans)"
    using assms(1) by (induction scans) (simp_all add: worker_points_empty)
  have b: "loop_body w (Scan scan) = Some (w\<lparr>consecutive_errors := consecutive_errors w + 1\<rparr>)"
    using assms(3) by (simp add: worker_points_empty [symmetric] Let_def)
  from b assms(2) show ?thesis
    by (simp add: run_failures [OF f] max_consecutive_errors_def del: loop_body.simps)
       simp
qed

theorem empty_frames_count_as_errors_witness:
  "list_all all_filtered [[(0, 10, 500)], [], [(15, 90, 0), (0, 91, 0)]]
   \<and> length [[(0, 10, 500)], [], [(15, 90, 0), (0::int, 91::real, 0::real)]] = 3
   \<and> all_filtered [(0, 10, 500)]
   \<and> \<not> worker_is_scanning
        (run Connected (map Scan [[(0, 10, 500)], [], [(15, 90, 0), (0, 91, 0)]]) init_worker)
   \<and> data_ready
        (run Connected (map Scan [[(0, 10, 500)], [], [(15, 90, 0), (0, 91, 0)]]) init_worker)
       = []"
proof -
  have h: "list_all all_filtered [[(0, 10, 500)], [], [(15, 90, 0), (0, 91, 0)]]"
    "length [[(0, 10, 500)], [], [(15, 90, 0), (0::int, 91::real, 0::real)]] = 3"
    "all_filtered [(0, 10, 500)]"
    by (simp_all add: all_filtered_def)
  from empty_frames_count_as_errors [OF h, of init_worker] h show ?thesis
    by (simp add: init_worker_def)
qed

end
